theory Spec2Isabelle
  imports Main
begin

section \<open>Python values\<close>

text \<open>
  A Python \<^verbatim>\<open>str\<close> is a sequence of Unicode code points, modelled as a list of
  naturals. \<open>ustr\<close> embeds an ASCII literal.
\<close>

type_synonym pystr = "nat list"

definition ustr :: "string \<Rightarrow> pystr" where
  "ustr s = map of_char s"

text \<open>The exceptions (all subclasses of \<^verbatim>\<open>Exception\<close>) that the program can meet.\<close>

datatype exn =
    RequestException pystr
  | HTTPError nat
  | ParserError pystr
  | FeatureNotFound pystr
  | ValueError
  | IndexError
  | TypeError
  | OverflowError
  | AttributeError

text \<open>
  \<^verbatim>\<open>str.isspace\<close> on one code point: the characters that \<^verbatim>\<open>str.split()\<close> and
  \<^verbatim>\<open>str.strip()\<close> treat as whitespace.
\<close>

definition isspace :: "nat \<Rightarrow> bool" where
  "isspace c \<longleftrightarrow>
     (9 \<le> c \<and> c \<le> 13) \<or> (28 \<le> c \<and> c \<le> 32) \<or> c = 133 \<or> c = 160 \<or> c = 5760 \<or>
     (8192 \<le> c \<and> c \<le> 8202) \<or> c = 8232 \<or> c = 8233 \<or> c = 8239 \<or> c = 8287 \<or> c = 12288"

text \<open>\<^verbatim>\<open>s.split()\<close>: the maximal runs of non-whitespace, in order.\<close>

fun split_ws_acc :: "pystr \<Rightarrow> pystr \<Rightarrow> pystr list" where
  "split_ws_acc w [] = (if w = [] then [] else [w])"
| "split_ws_acc w (c # cs) =
     (if isspace c then (if w = [] then split_ws_acc [] cs else w # split_ws_acc [] cs)
      else split_ws_acc (w @ [c]) cs)"

definition py_split_ws :: "pystr \<Rightarrow> pystr list" where
  "py_split_ws s = split_ws_acc [] s"

text \<open>\<^verbatim>\<open>sep.join(xs)\<close>.\<close>

fun py_join :: "pystr \<Rightarrow> pystr list \<Rightarrow> pystr" where
  "py_join sep [] = []"
| "py_join sep (x # xs) = (if xs = [] then x else x @ sep @ py_join sep xs)"

text \<open>\<^verbatim>\<open>s.strip()\<close>.\<close>

definition py_strip :: "pystr \<Rightarrow> pystr" where
  "py_strip s = rev (dropWhile isspace (rev (dropWhile isspace s)))"

text \<open>
  \<^verbatim>\<open>s.split(sep)\<close> for a separator given explicitly: the pieces between the
  non-overlapping occurrences of \<open>sep\<close>, found from the left; an empty separator raises
  \<^verbatim>\<open>ValueError\<close>.
\<close>

function py_split_acc :: "pystr \<Rightarrow> pystr \<Rightarrow> pystr \<Rightarrow> pystr list" where
  "py_split_acc sep w [] = [w]"
| "py_split_acc sep w (c # cs) =
     (if sep \<noteq> [] \<and> take (length sep) (c # cs) = sep
      then w # py_split_acc sep [] (drop (length sep) (c # cs))
      else py_split_acc sep (w @ [c]) cs)"
  by pat_completeness auto
termination
  by (relation "measure (\<lambda>(sep, w, s). length s)") auto

definition py_split :: "pystr \<Rightarrow> pystr \<Rightarrow> exn + pystr list" where
  "py_split sep s = (if sep = [] then Inl ValueError else Inr (py_split_acc sep [] s))"

text \<open>\<^verbatim>\<open>xs[-1]\<close>, which raises \<^verbatim>\<open>IndexError\<close> on an empty list.\<close>

definition py_last :: "'a list \<Rightarrow> exn + 'a" where
  "py_last xs = (if xs = [] then Inl IndexError else Inr (last xs))"

section \<open>clean_html\<close>

text \<open>
  One match of the regular expression \<^verbatim>\<open><.*?>\<close> after its opening \<^verbatim>\<open><\<close>: the text that
  follows the nearest \<^verbatim>\<open>>\<close>, provided no newline (which \<^verbatim>\<open>.\<close> does not match) comes
  before it.
\<close>

fun tag_end :: "pystr \<Rightarrow> pystr option" where
  "tag_end [] = None"
| "tag_end (c # cs) = (if c = 62 then Some cs else if c = 10 then None else tag_end cs)"

lemma tag_end_length: "tag_end cs = Some rest \<Longrightarrow> length rest < Suc (length cs)"
  by (induction cs) (auto split: if_splits)

text \<open>\<^verbatim>\<open>re.sub('<.*?>', '', raw_html)\<close>: every match, leftmost first, is removed.\<close>

function re_sub_tags :: "pystr \<Rightarrow> pystr" where
  "re_sub_tags [] = []"
| "re_sub_tags (c # cs) =
     (if c = 60
      then (case tag_end cs of Some rest \<Rightarrow> re_sub_tags rest | None \<Rightarrow> c # re_sub_tags cs)
      else c # re_sub_tags cs)"
  by pat_completeness auto
termination
  by (relation "measure length") (auto dest: tag_end_length)

definition clean_html :: "pystr \<Rightarrow> pystr" where
  "clean_html raw_html = py_join (ustr '' '') (py_split_ws (re_sub_tags raw_html))"

section \<open>NewsCache\<close>

text \<open>
  A \<^verbatim>\<open>datetime\<close> is modelled as its count of microseconds since 0001-01-01 00:00:00; the
  last one is 9999-12-31 23:59:59.999999, the end of day 3652059. A \<^verbatim>\<open>timedelta\<close> is its
  count of microseconds. The clock reading \<^verbatim>\<open>datetime.now()\<close> is an argument of each
  operation that takes one.
\<close>

type_synonym datetime = int

definition datetime_max :: datetime where
  "datetime_max = 3652059 * 86400000000 - 1"

text \<open>
  \<^verbatim>\<open>d + td\<close> for a \<^verbatim>\<open>datetime\<close> and a \<^verbatim>\<open>timedelta\<close>: a sum outside the years 1 to 9999
  raises \<^verbatim>\<open>OverflowError\<close>.
\<close>

definition datetime_add :: "datetime \<Rightarrow> int \<Rightarrow> exn + datetime" where
  "datetime_add d td =
     (if 0 \<le> d + td \<and> d + td \<le> datetime_max then Inr (d + td) else Inl OverflowError)"

text \<open>
  \<^verbatim>\<open>timedelta(seconds=n)\<close> for an integer \<open>n\<close>: more than 999999999 days either way raises
  \<^verbatim>\<open>OverflowError\<close>.
\<close>

definition timedelta_seconds :: "int \<Rightarrow> exn + int" where
  "timedelta_seconds n =
     (if - 999999999 \<le> n div 86400 \<and> n div 86400 \<le> 999999999 then Inr (n * 1000000)
      else Inl OverflowError)"

text \<open>
  A cached value is any Python value, \<^verbatim>\<open>None\<close> included: \<open>'v option\<close>, with \<open>None\<close>
  for \<^verbatim>\<open>None\<close>.
\<close>

record 'v cache_item =
  data :: "'v option"
  expiry :: datetime

type_synonym ('k, 'v) news_cache = "'k \<rightharpoonup> 'v cache_item"

definition NewsCache_init :: "('k, 'v) news_cache" where
  "NewsCache_init = Map.empty"

definition NewsCache_get :: "('k, 'v) news_cache \<Rightarrow> 'k \<Rightarrow> datetime \<Rightarrow> 'v option" where
  "NewsCache_get self key now =
     (case self key of
        Some item \<Rightarrow> (if now < expiry item then data item else None)
      | None \<Rightarrow> None)"

text \<open>
  \<^verbatim>\<open>set\<close> builds the entry before it stores it, so a call that raises stores nothing: the
  result is the exception, or the dictionary after the store. \<open>timedelta\<close> is
  \<^verbatim>\<open>timedelta(seconds=ttl_seconds)\<close> for the type of \<open>ttl_seconds\<close>, the microseconds it
  holds or the exception it raises: \<open>timedelta_seconds\<close> for an integer; for a float,
  which the library rounds to whole microseconds in floating point, it is taken as it is.
\<close>

definition NewsCache_set ::
  "('t \<Rightarrow> exn + int) \<Rightarrow> ('k, 'v) news_cache \<Rightarrow> 'k \<Rightarrow> 'v option \<Rightarrow> 't \<Rightarrow> datetime \<Rightarrow>
   exn + ('k, 'v) news_cache" where
  "NewsCache_set timedelta self key val ttl_seconds now =
     (case timedelta ttl_seconds of
        Inl e \<Rightarrow> Inl e
      | Inr td \<Rightarrow>
          (case datetime_add now td of
             Inl e \<Rightarrow> Inl e
           | Inr expiry' \<Rightarrow> Inr (self(key \<mapsto> \<lparr>data = val, expiry = expiry'\<rparr>))))"

text \<open>The dictionary of the cache after a call of \<^verbatim>\<open>set\<close> on \<open>self\<close>.\<close>

definition after_set :: "('k, 'v) news_cache \<Rightarrow> exn + ('k, 'v) news_cache \<Rightarrow> ('k, 'v) news_cache" where
  "after_set self r = (case r of Inl e \<Rightarrow> self | Inr self' \<Rightarrow> self')"

section \<open>cache_response\<close>

text \<open>\<^verbatim>\<open>str(n)\<close> for an integer: its decimal digits, after a minus sign when negative.\<close>

function str_nat :: "nat \<Rightarrow> pystr" where
  "str_nat n = (if n < 10 then [48 + n] else str_nat (n div 10) @ [48 + n mod 10])"
  by pat_completeness auto
termination
  by (relation "measure id") auto

declare str_nat.simps [simp del]

definition str_int :: "int \<Rightarrow> pystr" where
  "str_int i = (if i < 0 then 45 # str_nat (nat (- i)) else str_nat (nat i))"

text \<open>
  \<^verbatim>\<open>str(args)\<close> for a tuple of integers: \<^verbatim>\<open>()\<close>, \<^verbatim>\<open>(1,)\<close>, \<^verbatim>\<open>(1, 2)\<close>.
\<close>

definition tuple_body :: "int list \<Rightarrow> pystr" where
  "tuple_body args =
     (case args of
        [a] \<Rightarrow> str_int a @ ustr '',''
      | _ \<Rightarrow> py_join (ustr '', '') (map str_int args))"

definition str_tuple :: "int list \<Rightarrow> pystr" where
  "str_tuple args = ustr ''('' @ tuple_body args @ ustr '')''"

text \<open>
  \<^verbatim>\<open>repr\<close> of a string that holds no quote, no backslash and no unprintable character
  (every identifier is one): the string between single quotes.
\<close>

definition repr_str :: "pystr \<Rightarrow> pystr" where
  "repr_str s = [39] @ s @ [39]"

definition str_dict_item :: "pystr \<times> int \<Rightarrow> pystr" where
  "str_dict_item kv = repr_str (fst kv) @ ustr '': '' @ str_int (snd kv)"

text \<open>
  \<^verbatim>\<open>str(kwargs)\<close> for keyword arguments with integer values, in the order of the call:
  \<^verbatim>\<open>{}\<close>, \<^verbatim>\<open>{'count': 5}\<close>.
\<close>

definition dict_body :: "(pystr \<times> int) list \<Rightarrow> pystr" where
  "dict_body kwargs = py_join (ustr '', '') (map str_dict_item kwargs)"

definition str_dict :: "(pystr \<times> int) list \<Rightarrow> pystr" where
  "str_dict kwargs = ustr ''{'' @ dict_body kwargs @ ustr ''}''"

text \<open>
  \<^verbatim>\<open>str.isidentifier\<close> on ASCII: letters, digits and the underscore, not starting with a
  digit. The name of a function written with \<^verbatim>\<open>def\<close> and the name of a keyword argument
  are identifiers.
\<close>

definition ident_char :: "nat \<Rightarrow> bool" where
  "ident_char c \<longleftrightarrow> (48 \<le> c \<and> c \<le> 57) \<or> (65 \<le> c \<and> c \<le> 90) \<or> c = 95 \<or> (97 \<le> c \<and> c \<le> 122)"

definition isidentifier :: "pystr \<Rightarrow> bool" where
  "isidentifier s \<longleftrightarrow> s \<noteq> [] \<and> \<not> (48 \<le> hd s \<and> hd s \<le> 57) \<and> list_all ident_char s"

text \<open>
  A Python function object: its identity, its \<^verbatim>\<open>__name__\<close> and what a call does:
  it raises, or returns a value (\<open>None\<close> for \<^verbatim>\<open>None\<close>).
\<close>

record 'r pyfunc =
  fn_id :: nat
  fn_name :: pystr
  fn_call :: "int list \<Rightarrow> (pystr \<times> int) list \<Rightarrow> exn + 'r option"

definition cache_key :: "'r pyfunc \<Rightarrow> int list \<Rightarrow> (pystr \<times> int) list \<Rightarrow> pystr" where
  "cache_key f args kwargs = fn_name f @ str_tuple args @ str_dict kwargs"

text \<open>
  The wrapper that \<^verbatim>\<open>cache_response(ttl_seconds)\<close> puts around \<open>f\<close>. \<open>now_get\<close> and
  \<open>now_set\<close> are the clock readings of \<^verbatim>\<open>news_cache.get\<close> and \<^verbatim>\<open>news_cache.set\<close>. The
  result is what the call raises, or the response and the new state of \<^verbatim>\<open>news_cache\<close>.
\<close>

definition wrapper ::
  "('t \<Rightarrow> exn + int) \<Rightarrow> 't \<Rightarrow> 'r pyfunc \<Rightarrow> int list \<Rightarrow> (pystr \<times> int) list \<Rightarrow>
   (pystr, 'r) news_cache \<Rightarrow> datetime \<Rightarrow> datetime \<Rightarrow> exn + 'r option \<times> (pystr, 'r) news_cache" where
  "wrapper timedelta ttl_seconds f args kwargs news_cache now_get now_set =
     (let cache_key' = cache_key f args kwargs;
          response = NewsCache_get news_cache cache_key' now_get
      in if response = None
         then (case fn_call f args kwargs of
                 Inl e \<Rightarrow> Inl e
               | Inr response' \<Rightarrow>
                   (case NewsCache_set timedelta news_cache cache_key' response' ttl_seconds now_set of
                      Inl e \<Rightarrow> Inl e
                    | Inr news_cache' \<Rightarrow> Inr (response', news_cache')))
         else Inr (response, news_cache))"

section \<open>The feed and its entries\<close>

text \<open>
  What the XML parser gives for one \<^verbatim>\<open>item\<close> element: the text of its \<^verbatim>\<open>title\<close>,
  \<^verbatim>\<open>description\<close> and \<^verbatim>\<open>pubDate\<close> children, each \<open>None\<close> when the child is absent.
\<close>

record raw_item =
  title_text :: "pystr option"
  description_text :: "pystr option"
  pubDate_text :: "pystr option"

text \<open>
  The dictionary built for one entry. \<^verbatim>\<open>link\<close> is a Python value that may be \<^verbatim>\<open>None\<close>.
\<close>

record news_item =
  title :: pystr
  link :: "pystr option"
  published_date :: pystr
  summary :: pystr
  source :: pystr

record http_response =
  status_code :: nat
  content :: pystr

text \<open>
  The collaborators of one fetch, which are not part of this program: the outcome of
  \<^verbatim>\<open>requests.get(url)\<close>; \<^verbatim>\<open>BeautifulSoup(content, features='xml').find_all('item')\<close>; and
  \<^verbatim>\<open>BeautifulSoup(html_text, 'lxml').find('a')\<close>, which gives the attributes of the first
  anchor element, or \<open>None\<close> when there is none. Each may raise.
\<close>

record collaborators =
  requests_get :: "exn + http_response"
  find_all_item :: "pystr \<Rightarrow> exn + raw_item list"
  find_a :: "pystr \<Rightarrow> exn + (pystr \<times> pystr) list option"

text \<open>\<^verbatim>\<open>response.raise_for_status()\<close>: a 4xx or 5xx status raises.\<close>

definition raise_for_status :: "http_response \<Rightarrow> exn + unit" where
  "raise_for_status response =
     (if 400 \<le> status_code response \<and> status_code response < 600
      then Inl (HTTPError (status_code response)) else Inr ())"

text \<open>
  \<^verbatim>\<open>extract_link\<close>: a tag object is always true, and \<^verbatim>\<open>link.get('href')\<close> is \<^verbatim>\<open>None\<close> when
  the anchor has no such attribute.
\<close>

definition extract_link :: "collaborators \<Rightarrow> pystr \<Rightarrow> exn + pystr option" where
  "extract_link lib html_text =
     (case find_a lib html_text of
        Inl e \<Rightarrow> Inl e
      | Inr None \<Rightarrow> Inr (Some [])
      | Inr (Some attrs) \<Rightarrow> Inr (map_of attrs (ustr ''href'')))"

text \<open>The body of the loop of \<^verbatim>\<open>fetch_news\<close>: the record of one entry.\<close>

definition source_of :: "pystr \<Rightarrow> exn + pystr" where
  "source_of summary_html =
     (if summary_html \<noteq> []
      then (case py_split (ustr ''</a>'') summary_html of
              Inl e \<Rightarrow> Inl e
            | Inr parts \<Rightarrow> (case py_last parts of Inl e \<Rightarrow> Inl e | Inr p \<Rightarrow> Inr (clean_html p)))
      else Inr [])"

definition make_news_item :: "collaborators \<Rightarrow> raw_item \<Rightarrow> exn + news_item" where
  "make_news_item lib item =
     (let summary_html = (case description_text item of Some t \<Rightarrow> t | None \<Rightarrow> []);
          summary' = clean_html summary_html
      in case source_of summary_html of
           Inl e \<Rightarrow> Inl e
         | Inr source' \<Rightarrow>
             (case extract_link lib summary_html of
                Inl e \<Rightarrow> Inl e
              | Inr lnk \<Rightarrow>
                  Inr \<lparr>title = (case title_text item of Some t \<Rightarrow> t | None \<Rightarrow> []),
                       link = lnk,
                       published_date = (case pubDate_text item of Some t \<Rightarrow> t | None \<Rightarrow> []),
                       summary = summary',
                       source = py_strip source'\<rparr>))"

fun news_loop :: "collaborators \<Rightarrow> raw_item list \<Rightarrow> news_item list \<Rightarrow> exn + news_item list" where
  "news_loop lib [] news_items = Inr news_items"
| "news_loop lib (item # items) news_items =
     (case make_news_item lib item of
        Inl e \<Rightarrow> Inl e
      | Inr news_item \<Rightarrow> news_loop lib items (news_items @ [news_item]))"

text \<open>The \<^verbatim>\<open>try\<close> block of \<^verbatim>\<open>fetch_news\<close>.\<close>

definition fetch_news_try :: "collaborators \<Rightarrow> exn + news_item list" where
  "fetch_news_try lib =
     (case requests_get lib of
        Inl e \<Rightarrow> Inl e
      | Inr response \<Rightarrow>
          (case raise_for_status response of
             Inl e \<Rightarrow> Inl e
           | Inr _ \<Rightarrow>
               (case find_all_item lib (content response) of
                  Inl e \<Rightarrow> Inl e
                | Inr items \<Rightarrow> news_loop lib items [])))"

text \<open>The lines the program logs, each with the value it formats.\<close>

datatype log_record =
    Error_fetching_news exn
  | Cache_updated_at datetime
  | Error_updating_cache exn

text \<open>
  \<^verbatim>\<open>fetch_news\<close>: the handler of \<^verbatim>\<open>except Exception\<close> logs and returns the empty list.
  The result is what the call raises, or the list returned with the log after the call.
\<close>

definition fetch_news :: "collaborators \<Rightarrow> log_record list \<Rightarrow> exn + news_item list \<times> log_record list" where
  "fetch_news lib lg =
     (case fetch_news_try lib of
        Inr news_items \<Rightarrow> Inr (news_items, lg)
      | Inl e \<Rightarrow> Inr ([], lg @ [Error_fetching_news e]))"

section \<open>update_cache\<close>

text \<open>The dictionary \<^verbatim>\<open>cache\<close>.\<close>

record cache_dict =
  news :: "news_item list"
  last_update :: "datetime option"
  cache_duration :: nat


text \<open>The state the refresh thread works on: \<^verbatim>\<open>cache\<close> and the log.\<close>

record state =
  cache :: cache_dict
  logger :: "log_record list"

text \<open>
  One iteration of the loop of \<^verbatim>\<open>update_cache\<close>, up to its \<^verbatim>\<open>time.sleep\<close>. \<open>now\<close> is
  the clock reading of \<^verbatim>\<open>datetime.now()\<close>.
\<close>

definition update_cache_iteration :: "collaborators \<Rightarrow> datetime \<Rightarrow> state \<Rightarrow> state" where
  "update_cache_iteration lib now st =
     (case fetch_news lib (logger st) of
        Inl e \<Rightarrow> st\<lparr>logger := logger st @ [Error_updating_cache e]\<rparr>
      | Inr (news_items, lg) \<Rightarrow>
          (if news_items \<noteq> []
           then (let c1 = (cache st)\<lparr>news := news_items\<rparr>;
                     c2 = c1\<lparr>last_update := Some now\<rparr>
                 in \<lparr>cache = c2, logger = lg @ [Cache_updated_at now]\<rparr>)
           else st\<lparr>logger := lg\<rparr>))"

text \<open>
  The loop run for as many iterations as there are inputs: each iteration has its own
  outcome of the collaborators and its own clock reading.
\<close>

fun update_cache :: "(collaborators \<times> datetime) list \<Rightarrow> state \<Rightarrow> state" where
  "update_cache [] st = st"
| "update_cache ((lib, now) # rest) st = update_cache rest (update_cache_iteration lib now st)"

text \<open>
  The same iteration statement by statement: the refresh thread is at one of its
  statements, holds its local \<^verbatim>\<open>news_items\<close>, and each step runs one statement on the
  state that the request handlers read.
\<close>

datatype pc = At_fetch | At_test | At_assign_news | At_assign_last_update | At_log_info | At_sleep

record thread =
  at :: pc
  news_items :: "news_item list"
  shared :: state

definition update_cache_step :: "collaborators \<Rightarrow> datetime \<Rightarrow> thread \<Rightarrow> thread" where
  "update_cache_step lib now th =
     (case at th of
        At_fetch \<Rightarrow>
          (case fetch_news lib (logger (shared th)) of
             Inl e \<Rightarrow>
               th\<lparr>at := At_sleep,
                  shared := (shared th)\<lparr>logger := logger (shared th) @ [Error_updating_cache e]\<rparr>\<rparr>
           | Inr (items, lg) \<Rightarrow>
               th\<lparr>at := At_test, news_items := items, shared := (shared th)\<lparr>logger := lg\<rparr>\<rparr>)
      | At_test \<Rightarrow> (if news_items th \<noteq> [] then th\<lparr>at := At_assign_news\<rparr> else th\<lparr>at := At_sleep\<rparr>)
      | At_assign_news \<Rightarrow>
          th\<lparr>at := At_assign_last_update,
             shared := (shared th)\<lparr>cache := (cache (shared th))\<lparr>news := news_items th\<rparr>\<rparr>\<rparr>
      | At_assign_last_update \<Rightarrow>
          th\<lparr>at := At_log_info,
             shared := (shared th)\<lparr>cache := (cache (shared th))\<lparr>last_update := Some now\<rparr>\<rparr>\<rparr>
      | At_log_info \<Rightarrow>
          th\<lparr>at := At_sleep,
             shared := (shared th)\<lparr>logger := logger (shared th) @ [Cache_updated_at now]\<rparr>\<rparr>
      | At_sleep \<Rightarrow> th)"

text \<open>The thread after \<open>k\<close> statements of an iteration that starts on state \<open>st\<close>.\<close>

fun update_cache_steps :: "collaborators \<Rightarrow> datetime \<Rightarrow> nat \<Rightarrow> state \<Rightarrow> thread" where
  "update_cache_steps lib now 0 st = \<lparr>at = At_fetch, news_items = [], shared = st\<rparr>"
| "update_cache_steps lib now (Suc k) st = update_cache_step lib now (update_cache_steps lib now k st)"

section \<open>The request handlers\<close>

text \<open>
  The JSON body and the headers of a response of \<^verbatim>\<open>jsonify\<close>, whose HTTP status is 200.
\<close>

record response =
  json_status :: pystr
  json_last_update :: "pystr option"
  json_count :: int
  json_news :: "news_item list"
  http_status :: nat
  headers :: "(pystr \<times> pystr) list"

text \<open>
  \<^verbatim>\<open>xs[:n]\<close> for a Python integer \<open>n\<close>: a negative \<open>n\<close> counts from the end.
\<close>

definition py_slice_to :: "'a list \<Rightarrow> int \<Rightarrow> 'a list" where
  "py_slice_to xs n = (if n < 0 then take (nat (int (length xs) + n)) xs else take (nat n) xs)"

text \<open>
  The handlers read one \<^verbatim>\<open>cache\<close>; \<open>strftime\<close> is \<^verbatim>\<open>datetime.strftime\<close>, taken as it is.
\<close>

definition get_news :: "(datetime \<Rightarrow> pystr \<Rightarrow> pystr) \<Rightarrow> cache_dict \<Rightarrow> response" where
  "get_news strftime c =
     \<lparr>json_status = ustr ''success'',
      json_last_update =
        (case last_update c of
           Some t \<Rightarrow> Some (strftime t (ustr ''%Y-%m-%d %H:%M:%S''))
         | None \<Rightarrow> None),
      json_count = int (length (news c)),
      json_news = news c,
      http_status = 200,
      headers =
        [(ustr ''Cache-Control'', ustr ''public, max-age=300''),
         (ustr ''X-Cache-Hit'', if news c \<noteq> [] then ustr ''true'' else ustr ''false''),
         (ustr ''Last-Modified'',
          case last_update c of
            Some t \<Rightarrow> strftime t (ustr ''%a, %d %b %Y %H:%M:%S GMT'')
          | None \<Rightarrow> [])]\<rparr>"

definition get_latest_news :: "(datetime \<Rightarrow> pystr \<Rightarrow> pystr) \<Rightarrow> cache_dict \<Rightarrow> int \<Rightarrow> response" where
  "get_latest_news strftime c count =
     \<lparr>json_status = ustr ''success'',
      json_last_update =
        (case last_update c of
           Some t \<Rightarrow> Some (strftime t (ustr ''%Y-%m-%d %H:%M:%S''))
         | None \<Rightarrow> None),
      json_count = min count (int (length (news c))),
      json_news = py_slice_to (news c) count,
      http_status = 200,
      headers = [(ustr ''Cache-Control'', ustr ''public, max-age=300'')]\<rparr>"

text \<open>
  \<^verbatim>\<open>get_news\<close> reads \<^verbatim>\<open>cache\<close> seven times, and the refresh thread may store into it in
  between: \<open>reads i\<close> is the dictionary at the read number \<open>i\<close>. The conditional
  expression \<^verbatim>\<open>cache['last_update'].strftime(fmt) if cache['last_update'] else default\<close>
  reads the entry for its condition and once more for its value, and a value \<^verbatim>\<open>None\<close>
  has no \<^verbatim>\<open>strftime\<close>.
\<close>

definition strftime_if_set ::
  "(datetime \<Rightarrow> pystr \<Rightarrow> pystr) \<Rightarrow> pystr \<Rightarrow> cache_dict \<Rightarrow> cache_dict \<Rightarrow> exn + pystr option" where
  "strftime_if_set strftime fmt c_condition c_value =
     (case last_update c_condition of
        None \<Rightarrow> Inr None
      | Some _ \<Rightarrow>
          (case last_update c_value of
             None \<Rightarrow> Inl AttributeError
           | Some t \<Rightarrow> Inr (Some (strftime t fmt))))"

definition get_news_reading ::
  "(datetime \<Rightarrow> pystr \<Rightarrow> pystr) \<Rightarrow> (nat \<Rightarrow> cache_dict) \<Rightarrow> exn + response" where
  "get_news_reading strftime reads =
     (case strftime_if_set strftime (ustr ''%Y-%m-%d %H:%M:%S'') (reads 0) (reads 1) of
        Inl e \<Rightarrow> Inl e
      | Inr json_last_update' \<Rightarrow>
          (case strftime_if_set strftime (ustr ''%a, %d %b %Y %H:%M:%S GMT'') (reads 5) (reads 6) of
             Inl e \<Rightarrow> Inl e
           | Inr last_modified \<Rightarrow>
               Inr \<lparr>json_status = ustr ''success'',
                    json_last_update = json_last_update',
                    json_count = int (length (news (reads 2))),
                    json_news = news (reads 3),
                    http_status = 200,
                    headers =
                      [(ustr ''Cache-Control'', ustr ''public, max-age=300''),
                       (ustr ''X-Cache-Hit'',
                        if news (reads 4) \<noteq> [] then ustr ''true'' else ustr ''false''),
                       (ustr ''Last-Modified'',
                        case last_modified of Some text \<Rightarrow> text | None \<Rightarrow> [])]\<rparr>))"

text \<open>
  \<^verbatim>\<open>get_news\<close> running while the refresh thread runs an iteration from state \<open>st\<close>: the read
  number \<open>i\<close> comes after \<open>schedule i\<close> statements of the iteration.
\<close>

definition get_news_during_refresh ::
  "collaborators \<Rightarrow> datetime \<Rightarrow> state \<Rightarrow> (nat \<Rightarrow> nat) \<Rightarrow> (datetime \<Rightarrow> pystr \<Rightarrow> pystr) \<Rightarrow>
   exn + response" where
  "get_news_during_refresh lib now st schedule strftime =
     get_news_reading strftime (\<lambda>i. cache (shared (update_cache_steps lib now (schedule i) st)))"

text \<open>
  The view functions that \<^verbatim>\<open>cache_response\<close> wraps, as function objects: a call binds the
  arguments to the parameters (or raises \<^verbatim>\<open>TypeError\<close>) and reads \<^verbatim>\<open>cache\<close>.
\<close>

definition get_news_view :: "(datetime \<Rightarrow> pystr \<Rightarrow> pystr) \<Rightarrow> cache_dict \<Rightarrow> response pyfunc" where
  "get_news_view strftime c =
     \<lparr>fn_id = 0, fn_name = ustr ''get_news'',
      fn_call = (\<lambda>args kwargs.
        if args = [] \<and> kwargs = [] then Inr (Some (get_news strftime c)) else Inl TypeError)\<rparr>"

definition get_latest_news_view ::
  "(datetime \<Rightarrow> pystr \<Rightarrow> pystr) \<Rightarrow> cache_dict \<Rightarrow> response pyfunc" where
  "get_latest_news_view strftime c =
     \<lparr>fn_id = 1, fn_name = ustr ''get_latest_news'',
      fn_call = (\<lambda>args kwargs.
        case (args, kwargs) of
          ([count], []) \<Rightarrow> Inr (Some (get_latest_news strftime c count))
        | ([], [(k, count)]) \<Rightarrow>
            (if k = ustr ''count'' then Inr (Some (get_latest_news strftime c count))
             else Inl TypeError)
        | _ \<Rightarrow> Inl TypeError)\<rparr>"

text \<open>
  The routes, both under \<^verbatim>\<open>@cache_response(ttl_seconds=300)\<close>: the framework calls the
  wrapped view with the URL's variables as keyword arguments, and the converter \<^verbatim>\<open>int\<close> of
  \<^verbatim>\<open>/news/latest/<int:count>\<close> matches digits only, so \<open>count\<close> is never negative. The
  routes are modelled for the counts that reach the view: an interpreter that limits the
  digits of an integer conversion refuses a longer count before the view is called.
\<close>

definition route_news ::
  "(datetime \<Rightarrow> pystr \<Rightarrow> pystr) \<Rightarrow> cache_dict \<Rightarrow> (pystr, response) news_cache \<Rightarrow>
   datetime \<Rightarrow> datetime \<Rightarrow> exn + response option \<times> (pystr, response) news_cache" where
  "route_news strftime c news_cache now_get now_set =
     wrapper timedelta_seconds 300 (get_news_view strftime c) [] [] news_cache now_get now_set"

definition route_news_latest ::
  "(datetime \<Rightarrow> pystr \<Rightarrow> pystr) \<Rightarrow> cache_dict \<Rightarrow> nat \<Rightarrow> (pystr, response) news_cache \<Rightarrow>
   datetime \<Rightarrow> datetime \<Rightarrow> exn + response option \<times> (pystr, response) news_cache" where
  "route_news_latest strftime c count news_cache now_get now_set =
     wrapper timedelta_seconds 300 (get_latest_news_view strftime c) []
       [(ustr ''count'', int count)] news_cache now_get now_set"

section \<open>Inputs for the examples\<close>

definition item_a :: news_item where
  "item_a = \<lparr>title = ustr ''A'', link = Some (ustr ''http://a''), published_date = [],
             summary = ustr ''a'', source = ustr ''S''\<rparr>"

definition item_b :: news_item where
  "item_b = \<lparr>title = ustr ''B'', link = Some (ustr ''http://b''), published_date = [],
             summary = ustr ''b'', source = ustr ''T''\<rparr>"

definition cache_ab :: cache_dict where
  "cache_ab = \<lparr>news = [item_a, item_b], last_update = Some 1000000, cache_duration = 300\<rparr>"

text \<open>A fetch whose network call fails.\<close>

definition lib_down :: collaborators where
  "lib_down =
     \<lparr>requests_get = Inl (RequestException (ustr ''connection refused'')),
      find_all_item = (\<lambda>_. Inr []),
      find_a = (\<lambda>_. Inr None)\<rparr>"

text \<open>A fetch that succeeds on a feed with no item.\<close>

definition lib_empty :: collaborators where
  "lib_empty =
     \<lparr>requests_get = Inr \<lparr>status_code = 200, content = ustr ''<rss></rss>''\<rparr>,
      find_all_item = (\<lambda>_. Inr []),
      find_a = (\<lambda>_. Inr None)\<rparr>"

definition strftime_stub :: "datetime \<Rightarrow> pystr \<Rightarrow> pystr" where
  "strftime_stub t fmt = fmt"

text \<open>What the caller of a function gets: the value returned, without the log.\<close>

definition returned :: "exn + 'a \<times> log_record list \<Rightarrow> exn + 'a" where
  "returned r = (case r of Inl e \<Rightarrow> Inl e | Inr (v, lg) \<Rightarrow> Inr v)"

text \<open>
  The description of the scenario: \<^verbatim>\<open>Some summary <a href="http://x">link</a> \<close>, the
  dash U+2014 (code point 8212) and \<^verbatim>\<open> Outlet Name\<close>; and an HTML parser that finds its
  anchor.
\<close>

definition scenario_description :: pystr where
  "scenario_description =
     ustr ''Some summary <a href='' @ [34] @ ustr ''http://x'' @ [34] @ ustr ''>link</a> ''
       @ [8212] @ ustr '' Outlet Name''"

definition lib_scenario :: collaborators where
  "lib_scenario =
     \<lparr>requests_get = Inr \<lparr>status_code = 200, content = ustr ''<rss></rss>''\<rparr>,
      find_all_item = (\<lambda>_. Inr []),
      find_a = (\<lambda>html_text.
        if html_text = scenario_description
        then Inr (Some [(ustr ''href'', ustr ''http://x'')]) else Inr None)\<rparr>"

text \<open>
  An entry whose description is \<^verbatim>\<open><a>text</a>\<close>, an anchor with no \<^verbatim>\<open>href\<close>, and an HTML
  parser that finds it.
\<close>

definition item_anchor_no_href :: raw_item where
  "item_anchor_no_href =
     \<lparr>title_text = Some (ustr ''T''), description_text = Some (ustr ''<a>text</a>''),
      pubDate_text = None\<rparr>"

definition lib_anchor_no_href :: collaborators where
  "lib_anchor_no_href =
     \<lparr>requests_get = Inr \<lparr>status_code = 200, content = ustr ''<rss></rss>''\<rparr>,
      find_all_item = (\<lambda>_. Inr []),
      find_a = (\<lambda>html_text. if html_text = ustr ''<a>text</a>'' then Inr (Some []) else Inr None)\<rparr>"

text \<open>An entry whose description is the plain text \<^verbatim>\<open>Plain text\<close>, with no anchor.\<close>

definition item_plain :: raw_item where
  "item_plain =
     \<lparr>title_text = Some (ustr ''T''), description_text = Some (ustr ''Plain text''),
      pubDate_text = None\<rparr>"

text \<open>A fetch that succeeds on a feed with one item, the plain one, and its record.\<close>

definition lib_one :: collaborators where
  "lib_one =
     \<lparr>requests_get = Inr \<lparr>status_code = 200, content = ustr ''<rss><item/></rss>''\<rparr>,
      find_all_item = (\<lambda>_. Inr [item_plain]),
      find_a = (\<lambda>_. Inr None)\<rparr>"

definition item_plain_news :: news_item where
  "item_plain_news =
     \<lparr>title = ustr ''T'', link = Some [], published_date = [],
      summary = ustr ''Plain text'', source = ustr ''Plain text''\<rparr>"

text \<open>
  A second function whose \<^verbatim>\<open>__name__\<close> is \<^verbatim>\<open>get_news\<close>, as another module may define
  one: it is not the view of this program.
\<close>

definition another_get_news :: "response pyfunc" where
  "another_get_news =
     \<lparr>fn_id = 2, fn_name = ustr ''get_news'', fn_call = (\<lambda>args kwargs. Inr None)\<rparr>"

text \<open>A clock reading: 2026-11-04 00:00:00, the start of day 739924.\<close>

definition clock_0 :: datetime where
  "clock_0 = 739923 * 86400000000"



text \<open>A formatter that prints the count of microseconds.\<close>

definition strftime_micro :: "datetime \<Rightarrow> pystr \<Rightarrow> pystr" where
  "strftime_micro t fmt = str_int t"

text \<open>
  A schedule of \<^verbatim>\<open>get_news\<close>: its first five reads come after two statements of the
  iteration, the fetch and the test, and its last two after four, the two assignments
  done.
\<close>

fun reads_around_refresh :: "nat \<Rightarrow> nat" where
  "reads_around_refresh i = (if i < 5 then 2 else 4)"

section \<open>Responses whose count is the length of their list\<close>

text \<open>
  A response is consistent when its \<^verbatim>\<open>count\<close> is the length of its \<^verbatim>\<open>news\<close>, and
  \<^verbatim>\<open>news_cache\<close> is consistent when every response it stores is.
\<close>

definition consistent_response :: "response \<Rightarrow> bool" where
  "consistent_response r \<longleftrightarrow> json_count r = int (length (json_news r))"

definition consistent_cache :: "(pystr, response) news_cache \<Rightarrow> bool" where
  "consistent_cache nc \<longleftrightarrow>
     (\<forall>k item r. nc k = Some item \<and> data item = Some r \<longrightarrow> consistent_response r)"

section \<open>Facts about the keyed cache\<close>

text \<open>
  When \<^verbatim>\<open>set\<close> raises: when \<^verbatim>\<open>timedelta\<close> does, or when the expiry is not a
  \<^verbatim>\<open>datetime\<close>. With a time to live of 300 seconds it stores whenever the clock is 300
  seconds or more before the end of the year 9999.
\<close>

lemma timedelta_seconds_microseconds: "timedelta_seconds n = Inr us \<Longrightarrow> us = n * 1000000"
  by (simp add: timedelta_seconds_def split: if_splits)

lemma timedelta_seconds_300: "timedelta_seconds 300 = Inr 300000000"
  by (simp add: timedelta_seconds_def)

lemma NewsCache_set_300:
  assumes "0 \<le> now" and "now + 300000000 \<le> datetime_max"
  shows "NewsCache_set timedelta_seconds nc key val 300 now
    = Inr (nc(key \<mapsto> \<lparr>data = val, expiry = now + 300000000\<rparr>))"
  using assms by (simp add: NewsCache_set_def timedelta_seconds_300 datetime_add_def)

lemma NewsCache_set_raises_iff:
  "(\<exists>e. NewsCache_set timedelta self k v t now = Inl e) \<longleftrightarrow>
     (\<exists>e. timedelta t = Inl e) \<or> (\<exists>td. timedelta t = Inr td \<and> \<not> (0 \<le> now + td \<and> now + td \<le> datetime_max))"
  by (auto simp: NewsCache_set_def datetime_add_def split: sum.splits)

lemma clock_0_in_range: "0 \<le> clock_0" "clock_0 + 300000000 \<le> datetime_max"
  "0 \<le> clock_0 + 60000000" "clock_0 + 60000000 + 300000000 \<le> datetime_max"
  by (simp_all add: clock_0_def datetime_max_def)

section \<open>Facts about the string operations\<close>

lemma py_split_acc_not_Nil: "py_split_acc sep w s \<noteq> []"
  by (induction sep w s rule: py_split_acc.induct) auto

text \<open>\<^verbatim>\<open>source_of\<close> raises nothing: the separator is not empty and a split has a last piece.\<close>

lemma source_of_returns:
  "source_of h =
     Inr (if h \<noteq> [] then clean_html (last (py_split_acc (ustr ''</a>'') [] h)) else [])"
  by (simp add: source_of_def py_split_def py_last_def py_split_acc_not_Nil ustr_def)

lemma make_news_item_returns:
  assumes "find_a lib (case description_text item of Some t \<Rightarrow> t | None \<Rightarrow> []) = Inr a"
  shows "\<exists>n. make_news_item lib item = Inr n"
  using assms
  by (simp add: make_news_item_def source_of_returns extract_link_def Let_def split: option.splits)

text \<open>
  A description in which \<^verbatim>\<open></a>\<close> does not occur is split into one piece, itself, so the
  \<^verbatim>\<open>source\<close> of its record is its \<^verbatim>\<open>summary\<close>.
\<close>

lemma py_split_acc_no_sep:
  assumes "\<forall>pre post. s \<noteq> pre @ sep @ post"
  shows "py_split_acc sep w s = [w @ s]"
  using assms
proof (induction s arbitrary: w)
  case Nil
  show ?case by simp
next
  case (Cons c cs)
  have "take (length sep) (c # cs) \<noteq> sep"
  proof
    assume "take (length sep) (c # cs) = sep"
    then have "c # cs = [] @ sep @ drop (length sep) (c # cs)"
      by (metis append_Nil append_take_drop_id)
    with Cons.prems show False by blast
  qed
  moreover have "\<forall>pre post. cs \<noteq> pre @ sep @ post"
  proof (intro allI notI)
    fix pre post
    assume "cs = pre @ sep @ post"
    then have "c # cs = (c # pre) @ sep @ post" by simp
    with Cons.prems show False by blast
  qed
  ultimately show ?case using Cons.IH [of "w @ [c]"] by simp
qed

lemma source_without_closing_anchor:
  assumes "description_text item = Some d"
    and "\<forall>pre post. d \<noteq> pre @ ustr ''</a>'' @ post"
    and "make_news_item lib item = Inr n"
  shows "source n = py_strip (summary n)"
proof (cases "d = []")
  case True
  with assms(1,3) show ?thesis
    by (auto simp: make_news_item_def source_of_returns Let_def clean_html_def py_split_ws_def
        py_strip_def split: sum.splits)
next
  case False
  have "py_split_acc (ustr ''</a>'') [] d = [d]"
    using py_split_acc_no_sep [OF assms(2), of "[]"] by simp
  with False assms(1,3) show ?thesis
    by (auto simp: make_news_item_def source_of_returns Let_def split: sum.splits)
qed

section \<open>Facts about fetch_news\<close>

text \<open>
  What raises in the \<^verbatim>\<open>try\<close> block: a failed network call, a status from 400 to 599, a
  parser that fails.
\<close>

lemma fetch_news_try_network_error:
  "requests_get lib = Inl e \<Longrightarrow> fetch_news_try lib = Inl e"
  by (simp add: fetch_news_try_def)

lemma fetch_news_try_http_error:
  "requests_get lib = Inr response \<Longrightarrow> 400 \<le> status_code response \<Longrightarrow>
   status_code response < 600 \<Longrightarrow> fetch_news_try lib = Inl (HTTPError (status_code response))"
  by (simp add: fetch_news_try_def raise_for_status_def)

lemma fetch_news_try_parse_error:
  "requests_get lib = Inr response \<Longrightarrow> raise_for_status response = Inr () \<Longrightarrow>
   find_all_item lib (content response) = Inl e \<Longrightarrow> fetch_news_try lib = Inl e"
  by (simp add: fetch_news_try_def)

section \<open>Facts about the cache key\<close>

text \<open>Two texts cut at a delimiter that neither left part holds are cut alike.\<close>

lemma split_at:
  "d \<notin> set a \<Longrightarrow> d \<notin> set b \<Longrightarrow> a @ d # x = b @ d # y \<Longrightarrow> a = b \<and> x = y"
proof (induction a arbitrary: b)
  case Nil
  then show ?case by (cases b) auto
next
  case (Cons c a)
  then show ?case by (cases b) auto
qed

lemma str_nat_not_Nil: "str_nat n \<noteq> []" "[] \<noteq> str_nat n"
  by (subst str_nat.simps, simp)+

lemma set_str_nat: "c \<in> set (str_nat n) \<Longrightarrow> 48 \<le> c \<and> c \<le> 57"
proof (induction n rule: str_nat.induct)
  case (1 n)
  show ?case
  proof (cases "n < 10")
    case True
    with "1.prems" show ?thesis by (subst (asm) str_nat.simps) simp
  next
    case False
    have "n mod 10 < 10" by simp
    with False "1.prems" "1.IH" show ?thesis
      by (subst (asm) str_nat.simps) (auto simp del: mod_less_divisor)
  qed
qed

lemma str_nat_inj: "str_nat n = str_nat m \<Longrightarrow> n = m"
proof (induction n arbitrary: m rule: str_nat.induct)
  case (1 n)
  show ?case
  proof (cases "n < 10")
    case n: True
    show ?thesis
    proof (cases "m < 10")
      case True
      with n "1.prems" show ?thesis
        by (simp add: str_nat.simps [of n] str_nat.simps [of m])
    next
      case False
      with n "1.prems" show ?thesis
        by (simp add: str_nat.simps [of n] str_nat.simps [of m] str_nat_not_Nil)
    qed
  next
    case n: False
    show ?thesis
    proof (cases "m < 10")
      case True
      with n "1.prems" show ?thesis
        by (simp add: str_nat.simps [of n] str_nat.simps [of m] str_nat_not_Nil)
    next
      case False
      with n "1.prems" have "str_nat (n div 10) = str_nat (m div 10)" and e: "n mod 10 = m mod 10"
        by (simp_all add: str_nat.simps [of n] str_nat.simps [of m])
      with n "1.IH" have "n div 10 = m div 10" by blast
      with e show ?thesis by (metis div_mult_mod_eq)
    qed
  qed
qed

lemma str_int_not_Nil: "str_int i \<noteq> []"
  by (simp add: str_int_def str_nat_not_Nil)

lemma set_str_int: "c \<in> set (str_int i) \<Longrightarrow> c = 45 \<or> (48 \<le> c \<and> c \<le> 57)"
  by (auto simp: str_int_def dest: set_str_nat split: if_splits)

lemma str_int_inj: "str_int i = str_int j \<Longrightarrow> i = j"
proof -
  assume a: "str_int i = str_int j"
  have neg: "45 # str_nat a \<noteq> str_nat b" for a b
  proof
    assume "45 # str_nat a = str_nat b"
    then have "45 \<in> set (str_nat b)" by (metis list.set_intros(1))
    then show False using set_str_nat by fastforce
  qed
  show ?thesis
  proof (cases "i < 0")
    case i: True
    show ?thesis
    proof (cases "j < 0")
      case True
      with i a have "nat (- i) = nat (- j)" by (auto simp: str_int_def dest: str_nat_inj)
      with i True show ?thesis by simp
    next
      case False
      with i a neg show ?thesis by (auto simp: str_int_def)
    qed
  next
    case i: False
    show ?thesis
    proof (cases "j < 0")
      case True
      with i a neg [of "nat (- j)" "nat i"] show ?thesis by (auto simp: str_int_def)
    next
      case False
      with i a have "nat i = nat j" by (auto simp: str_int_def dest: str_nat_inj)
      with i False show ?thesis by simp
    qed
  qed
qed

lemma py_join_inj:
  assumes "\<forall>x \<in> set xs \<union> set ys. x \<noteq> [] \<and> 44 \<notin> set x"
    and "py_join [44, 32] xs = py_join [44, 32] ys"
  shows "xs = ys"
  using assms
proof (induction xs arbitrary: ys)
  case Nil
  then show ?case by (cases ys) (auto split: if_splits)
next
  case (Cons x xs)
  show ?case
  proof (cases ys)
    case Nil
    with Cons.prems show ?thesis by (auto split: if_splits)
  next
    case ys: (Cons y ys')
    have nx: "44 \<notin> set x" and ny: "44 \<notin> set y" using Cons.prems(1) ys by auto
    show ?thesis
    proof (cases "xs = []")
      case x0: True
      show ?thesis
      proof (cases "ys' = []")
        case True
        with x0 ys Cons.prems(2) show ?thesis by simp
      next
        case False
        with x0 ys Cons.prems(2) have "x = y @ 44 # 32 # py_join [44, 32] ys'" by simp
        with nx show ?thesis by auto
      qed
    next
      case x1: False
      show ?thesis
      proof (cases "ys' = []")
        case True
        with x1 ys Cons.prems(2) have "y = x @ 44 # 32 # py_join [44, 32] xs" by simp
        with ny show ?thesis by auto
      next
        case False
        with x1 ys Cons.prems(2)
        have "x @ 44 # (32 # py_join [44, 32] xs) = y @ 44 # (32 # py_join [44, 32] ys')" by simp
        from split_at [OF nx ny this] have "x = y" and j: "py_join [44, 32] xs = py_join [44, 32] ys'"
          by auto
        moreover have "xs = ys'" using Cons.IH [OF _ j] Cons.prems(1) ys by auto
        ultimately show ?thesis using ys by simp
      qed
    qed
  qed
qed

lemma set_py_join: "c \<in> set (py_join sep xs) \<Longrightarrow> c \<in> set sep \<or> (\<exists>x \<in> set xs. c \<in> set x)"
  by (induction xs) (auto split: if_splits)

lemma tuple_body_no_paren: "41 \<notin> set (tuple_body args)"
proof
  assume a: "41 \<in> set (tuple_body args)"
  have s: "41 \<notin> set (str_int i)" for i using set_str_int [of 41 i] by auto
  show False
  proof (cases "\<exists>a. args = [a]")
    case True
    with a s show ?thesis by (auto simp: tuple_body_def ustr_def)
  next
    case False
    then have "tuple_body args = py_join (ustr '', '') (map str_int args)"
      by (auto simp: tuple_body_def split: list.splits)
    with a have "41 \<in> set (py_join [44, 32] (map str_int args))" by (simp add: ustr_def)
    from set_py_join [OF this] s show ?thesis by auto
  qed
qed

lemma tuple_body_inj: "tuple_body a = tuple_body b \<Longrightarrow> a = b"
proof -
  assume e: "tuple_body a = tuple_body b"
  have c: "44 \<notin> set (str_int i)" for i using set_str_int [of 44 i] by auto
  have P: "\<forall>x \<in> set (map str_int xs) \<union> set (map str_int ys). x \<noteq> [] \<and> 44 \<notin> set x" for xs ys
    using c str_int_not_Nil by auto
  have many: "tuple_body xs = py_join [44, 32] (map str_int xs)" if "\<not> (\<exists>a. xs = [a])" for xs
    using that by (auto simp: tuple_body_def ustr_def split: list.splits)
  have one: "tuple_body [x] = str_int x @ [44]" for x by (simp add: tuple_body_def ustr_def)
  have clash: "str_int x @ [44] \<noteq> py_join [44, 32] (map str_int ys)" for x ys
  proof
    assume h: "str_int x @ [44] = py_join [44, 32] (map str_int ys)"
    show False
    proof (cases ys)
      case Nil
      with h show ?thesis by simp
    next
      case (Cons y ys')
      show ?thesis
      proof (cases "ys' = []")
        case True
        with h Cons have "44 \<in> set (str_int y)" by (metis in_set_conv_decomp list.simps(8,9) py_join.simps(2))
        with c show ?thesis by blast
      next
        case False
        with h Cons have "str_int x @ 44 # [] = str_int y @ 44 # (32 # py_join [44, 32] (map str_int ys'))"
          by simp
        from split_at [OF c c this] show ?thesis by simp
      qed
    qed
  qed
  show ?thesis
  proof (cases "\<exists>x. a = [x]")
    case True
    then obtain x where a: "a = [x]" by blast
    show ?thesis
    proof (cases "\<exists>y. b = [y]")
      case True
      then obtain y where "b = [y]" by blast
      with a e one show ?thesis by (auto dest: str_int_inj)
    next
      case False
      with a e one many clash show ?thesis by metis
    qed
  next
    case na: False
    show ?thesis
    proof (cases "\<exists>y. b = [y]")
      case True
      then obtain y where "b = [y]" by blast
      with na e one many clash show ?thesis by metis
    next
      case False
      with na e many have "py_join [44, 32] (map str_int a) = py_join [44, 32] (map str_int b)" by simp
      from py_join_inj [OF P this] have "map str_int a = map str_int b" .
      moreover have "inj str_int" by (rule injI) (rule str_int_inj)
      ultimately show ?thesis by (simp add: inj_map_eq_map)
    qed
  qed
qed


lemma ident_chars: "isidentifier s \<Longrightarrow> c \<in> set s \<Longrightarrow> ident_char c"
  by (simp add: isidentifier_def list_all_iff)

lemma ident_no_delim:
  assumes "isidentifier s"
  shows "39 \<notin> set s" and "40 \<notin> set s" and "44 \<notin> set s"
  using ident_chars [OF assms, of 39] ident_chars [OF assms, of 40] ident_chars [OF assms, of 44]
  by (auto simp: ident_char_def)

lemma str_dict_item_inj:
  assumes "isidentifier (fst p)" and "isidentifier (fst q)"
    and "str_dict_item p = str_dict_item q"
  shows "p = q"
proof -
  from assms(3) have "fst p @ 39 # (58 # 32 # str_int (snd p)) = fst q @ 39 # (58 # 32 # str_int (snd q))"
    by (simp add: str_dict_item_def repr_str_def ustr_def)
  from split_at [OF ident_no_delim(1) [OF assms(1)] ident_no_delim(1) [OF assms(2)] this]
  have "fst p = fst q" and "str_int (snd p) = str_int (snd q)" by auto
  then show ?thesis by (auto simp: prod_eq_iff dest: str_int_inj)
qed

lemma str_dict_item_chars:
  assumes "isidentifier (fst p)"
  shows "str_dict_item p \<noteq> []" and "44 \<notin> set (str_dict_item p)"
proof -
  show "str_dict_item p \<noteq> []" by (simp add: str_dict_item_def repr_str_def)
  have "44 \<notin> set (str_int i)" for i using set_str_int [of 44 i] by auto
  with ident_no_delim(3) [OF assms] show "44 \<notin> set (str_dict_item p)"
    by (simp add: str_dict_item_def repr_str_def ustr_def)
qed

lemma dict_body_inj:
  assumes "list_all (\<lambda>p. isidentifier (fst p)) kw1" and "list_all (\<lambda>p. isidentifier (fst p)) kw2"
    and "dict_body kw1 = dict_body kw2"
  shows "kw1 = kw2"
proof -
  have P: "\<forall>x \<in> set (map str_dict_item kw1) \<union> set (map str_dict_item kw2). x \<noteq> [] \<and> 44 \<notin> set x"
    using assms(1,2) str_dict_item_chars by (auto simp: list_all_iff)
  from assms(3) have "py_join [44, 32] (map str_dict_item kw1) = py_join [44, 32] (map str_dict_item kw2)"
    by (simp add: dict_body_def ustr_def)
  from py_join_inj [OF P this] have m: "map str_dict_item kw1 = map str_dict_item kw2" .
  have "inj_on str_dict_item (set kw1 \<union> set kw2)"
  proof (rule inj_onI)
    fix p q
    assume p: "p \<in> set kw1 \<union> set kw2" and q: "q \<in> set kw1 \<union> set kw2"
      and e: "str_dict_item p = str_dict_item q"
    from p assms(1,2) have ip: "isidentifier (fst p)" by (auto simp: list_all_iff)
    from q assms(1,2) have iq: "isidentifier (fst q)" by (auto simp: list_all_iff)
    from ip iq e show "p = q" by (rule str_dict_item_inj)
  qed
  with m show ?thesis by (simp add: inj_on_map_eq_map)
qed

lemma cache_key_inj:
  assumes "isidentifier (fn_name f)" and "isidentifier (fn_name g)"
    and "list_all (\<lambda>p. isidentifier (fst p)) kw1" and "list_all (\<lambda>p. isidentifier (fst p)) kw2"
    and "cache_key f a1 kw1 = cache_key g a2 kw2"
  shows "fn_name f = fn_name g \<and> a1 = a2 \<and> kw1 = kw2"
proof -
  from assms(5)
  have "fn_name f @ 40 # (tuple_body a1 @ 41 # (123 # dict_body kw1 @ [125]))
      = fn_name g @ 40 # (tuple_body a2 @ 41 # (123 # dict_body kw2 @ [125]))"
    by (simp add: cache_key_def str_tuple_def str_dict_def ustr_def)
  from split_at [OF ident_no_delim(2) [OF assms(1)] ident_no_delim(2) [OF assms(2)] this]
  have n: "fn_name f = fn_name g"
    and r: "tuple_body a1 @ 41 # (123 # dict_body kw1 @ [125])
          = tuple_body a2 @ 41 # (123 # dict_body kw2 @ [125])"
    by auto
  from split_at [OF tuple_body_no_paren tuple_body_no_paren r]
  have t: "tuple_body a1 = tuple_body a2" and d: "dict_body kw1 = dict_body kw2" by auto
  from tuple_body_inj [OF t] dict_body_inj [OF assms(3,4) d] n show ?thesis by simp
qed

section \<open>Facts about the statements of an iteration\<close>

lemma make_news_item_plain: "make_news_item lib_one item_plain = Inr item_plain_news"
  by (simp add: make_news_item_def source_of_def py_split_def py_last_def clean_html_def
      extract_link_def lib_one_def item_plain_def py_strip_def py_split_ws_def isspace_def
      ustr_def Let_def item_plain_news_def)

lemma fetch_news_lib_one: "fetch_news lib_one lg = Inr ([item_plain_news], lg)"
proof -
  have "fetch_news_try lib_one = Inr [item_plain_news]"
    using make_news_item_plain
    by (simp add: fetch_news_try_def raise_for_status_def lib_one_def)
  then show ?thesis by (simp add: fetch_news_def)
qed

lemma steps_of_successful_fetch:
  assumes f: "fetch_news lib (logger st) = Inr (items, lg)" and ne: "items \<noteq> []"
  shows "update_cache_steps lib now (Suc 0) st
      = \<lparr>at = At_test, news_items = items, shared = st\<lparr>logger := lg\<rparr>\<rparr>"
    and "update_cache_steps lib now 2 st
      = \<lparr>at = At_assign_news, news_items = items, shared = st\<lparr>logger := lg\<rparr>\<rparr>"
    and "update_cache_steps lib now 3 st
      = \<lparr>at = At_assign_last_update, news_items = items,
         shared = \<lparr>cache = (cache st)\<lparr>news := items\<rparr>, logger = lg\<rparr>\<rparr>"
    and "update_cache_steps lib now 4 st
      = \<lparr>at = At_log_info, news_items = items,
         shared = \<lparr>cache = (cache st)\<lparr>news := items, last_update := Some now\<rparr>, logger = lg\<rparr>\<rparr>"
    and "update_cache_steps lib now 5 st
      = \<lparr>at = At_sleep, news_items = items,
         shared = \<lparr>cache = (cache st)\<lparr>news := items, last_update := Some now\<rparr>,
                   logger = lg @ [Cache_updated_at now]\<rparr>\<rparr>"
  using f ne by (simp_all add: eval_nat_numeral update_cache_step_def)

lemma steps_after_sleep:
  assumes "at (update_cache_steps lib now k st) = At_sleep"
  shows "update_cache_steps lib now (k + j) st = update_cache_steps lib now k st"
proof (induction j)
  case 0
  show ?case by simp
next
  case (Suc j)
  then show ?case using assms by (simp add: update_cache_step_def)
qed

section \<open>Facts about the responses\<close>

text \<open>
  A negative \<open>count\<close>, which the route never passes, is reported as it is, while the
  slice drops items from the end.
\<close>

lemma get_latest_news_negative_count:
  "json_count (get_latest_news strftime_stub cache_ab (- 1)) = - 1
   \<and> json_news (get_latest_news strftime_stub cache_ab (- 1)) = [item_a]"
  by (simp add: get_latest_news_def py_slice_to_def cache_ab_def)

text \<open>
  With no store in between, the seven reads of \<^verbatim>\<open>get_news\<close> see one dictionary and the
  response is the one of \<open>get_news\<close>.
\<close>

lemma get_news_reading_fixed: "get_news_reading strftime (\<lambda>i. c) = Inr (get_news strftime c)"
  by (simp add: get_news_reading_def strftime_if_set_def get_news_def split: option.splits)







text \<open>
  Every response that the routes return is consistent, read from \<^verbatim>\<open>news_cache\<close> or
  computed: the wrapper stores only what the views return.
\<close>

lemma get_news_consistent: "consistent_response (get_news strftime c)"
  by (simp add: consistent_response_def get_news_def)

lemma get_latest_news_consistent: "consistent_response (get_latest_news strftime c (int n))"
  by (simp add: consistent_response_def get_latest_news_def py_slice_to_def min_def)

lemma consistent_cache_init: "consistent_cache NewsCache_init"
  by (simp add: consistent_cache_def NewsCache_init_def)

lemma NewsCache_set_stores:
  assumes "NewsCache_set timedelta nc key val ttl now = Inr nc'"
  shows "\<exists>item. nc' = nc(key \<mapsto> item) \<and> data item = val"
  using assms by (auto simp: NewsCache_set_def split: sum.splits)

lemma wrapper_consistent:
  assumes nc: "consistent_cache nc"
    and f: "\<And>r. fn_call f args kwargs = Inr (Some r) \<Longrightarrow> consistent_response r"
    and w: "wrapper timedelta ttl f args kwargs nc t1 t2 = Inr (Some r, nc')"
  shows "consistent_response r \<and> consistent_cache nc'"
proof (cases "NewsCache_get nc (cache_key f args kwargs) t1")
  case None
  with w have c: "fn_call f args kwargs = Inr (Some r)"
    and n: "NewsCache_set timedelta nc (cache_key f args kwargs) (Some r) ttl t2 = Inr nc'"
    by (auto simp: wrapper_def Let_def split: sum.splits)
  from f [OF c] have r: "consistent_response r" .
  from NewsCache_set_stores [OF n] obtain item
    where "nc' = nc(cache_key f args kwargs \<mapsto> item)" and "data item = Some r" by blast
  with nc r have "consistent_cache nc'"
    by (auto simp: consistent_cache_def split: if_splits)
  with r show ?thesis by simp
next
  case (Some r')
  with w have e: "r' = r" "nc' = nc" by (auto simp: wrapper_def Let_def)
  from Some e obtain item where "nc (cache_key f args kwargs) = Some item" "data item = Some r"
    by (auto simp: NewsCache_get_def split: option.splits if_splits)
  with nc have "consistent_response r" by (auto simp: consistent_cache_def)
  with nc e show ?thesis by simp
qed

lemma route_news_consistent:
  assumes "consistent_cache nc" and "route_news strftime c nc t1 t2 = Inr (Some r, nc')"
  shows "consistent_response r \<and> consistent_cache nc'"
proof (rule wrapper_consistent [OF assms(1)])
  show "wrapper timedelta_seconds 300 (get_news_view strftime c) [] [] nc t1 t2 = Inr (Some r, nc')"
    using assms(2) by (simp add: route_news_def)
  show "consistent_response r'" if "fn_call (get_news_view strftime c) [] [] = Inr (Some r')" for r'
    using that get_news_consistent by (auto simp: get_news_view_def)
qed

lemma route_news_latest_consistent:
  assumes "consistent_cache nc" and "route_news_latest strftime c count nc t1 t2 = Inr (Some r, nc')"
  shows "consistent_response r \<and> consistent_cache nc'"
proof (rule wrapper_consistent [OF assms(1)])
  show "wrapper timedelta_seconds 300 (get_latest_news_view strftime c) []
      [(ustr ''count'', int count)] nc t1 t2 = Inr (Some r, nc')"
    using assms(2) by (simp add: route_news_latest_def)
  show "consistent_response r'"
    if "fn_call (get_latest_news_view strftime c) [] [(ustr ''count'', int count)] = Inr (Some r')"
    for r'
    using that get_latest_news_consistent by (auto simp: get_latest_news_view_def)
qed

lemma strftime_micro_distinct: "strftime_micro 2000000 fmt \<noteq> strftime_micro 1000000 fmt"
proof
  assume "strftime_micro 2000000 fmt = strftime_micro 1000000 fmt"
  then have "str_int 2000000 = str_int 1000000" by (simp add: strftime_micro_def)
  from str_int_inj [OF this] show False by simp
qed

section \<open>The refresh loop keeps the snapshot when a fetch gives nothing\<close>

text \<open>
  C1. When \<^verbatim>\<open>fetch_news\<close> returns the empty list, whatever it logged, the iteration of
  \<^verbatim>\<open>update_cache\<close> leaves \<^verbatim>\<open>cache\<close> as it was: \<^verbatim>\<open>cache['news']\<close> and
  \<^verbatim>\<open>cache['last_update']\<close> keep their values.
\<close>

theorem update_cache_keeps_snapshot_on_empty_fetch:
  assumes "fetch_news lib (logger st) = Inr ([], lg)"
  shows "cache (update_cache_iteration lib now st) = cache st
    \<and> news (cache (update_cache_iteration lib now st)) = news (cache st)
    \<and> last_update (cache (update_cache_iteration lib now st)) = last_update (cache st)"
  using assms by (simp add: update_cache_iteration_def)

theorem update_cache_keeps_snapshot_on_empty_fetch_witness:
  "fetch_news lib_down (logger \<lparr>cache = cache_ab, logger = []\<rparr>)
     = Inr ([], [Error_fetching_news (RequestException (ustr ''connection refused''))])
   \<and> cache (update_cache_iteration lib_down 2000000 \<lparr>cache = cache_ab, logger = []\<rparr>) = cache_ab
   \<and> news (cache (update_cache_iteration lib_down 2000000 \<lparr>cache = cache_ab, logger = []\<rparr>))
       = [item_a, item_b]
   \<and> last_update (cache (update_cache_iteration lib_down 2000000 \<lparr>cache = cache_ab, logger = []\<rparr>))
       = Some 1000000"
proof -
  have h: "fetch_news lib_down (logger \<lparr>cache = cache_ab, logger = []\<rparr>)
     = Inr ([], [Error_fetching_news (RequestException (ustr ''connection refused''))])"
    by (simp add: fetch_news_def fetch_news_try_def lib_down_def)
  show ?thesis
    using h update_cache_keeps_snapshot_on_empty_fetch [OF h, of 2000000]
    by (simp add: cache_ab_def)
qed

section \<open>The keyed cache expires an entry at its time to live\<close>

text \<open>
  C2. The claim is that for every time to live \<open>t\<close>, \<^verbatim>\<open>get(k)\<close> after \<^verbatim>\<open>set(k, v, t)\<close>
  returns \<open>v\<close> while less than \<open>t\<close> seconds have elapsed. It fails for a \<open>t\<close> whose
  expiry is past the year 9999: with \<open>t\<close> = 1000000000000 the \<^verbatim>\<open>timedelta\<close> exists, the
  sum with the clock raises \<^verbatim>\<open>OverflowError\<close>, \<^verbatim>\<open>set\<close> stores nothing, and \<^verbatim>\<open>get(k)\<close> at
  once returns \<^verbatim>\<open>None\<close>.
\<close>

theorem NewsCache_set_overflow:
  "NewsCache_set timedelta_seconds NewsCache_init (ustr ''k'') (Some item_a) 1000000000000 clock_0
     = Inl OverflowError
   \<and> timedelta_seconds 1000000000000 = Inr 1000000000000000000
   \<and> (0 :: int) < 1000000000000000000
   \<and> NewsCache_get
        (after_set NewsCache_init
           (NewsCache_set timedelta_seconds NewsCache_init (ustr ''k'') (Some item_a)
              1000000000000 clock_0))
        (ustr ''k'') (clock_0 + 0) = None
   \<and> Some item_a \<noteq> None"
  by (simp add: NewsCache_set_def timedelta_seconds_def datetime_add_def datetime_max_def
      clock_0_def after_set_def NewsCache_get_def NewsCache_init_def)

text \<open>
  C2, amended. For every key, value and time to live for which \<^verbatim>\<open>set(k, v, t)\<close> does not
  raise, \<^verbatim>\<open>get(k)\<close> after it returns \<open>v\<close> when the microseconds elapsed between the two
  clock readings are fewer than those of \<^verbatim>\<open>timedelta(seconds=t)\<close>, and \<^verbatim>\<open>None\<close> when they
  are as many or more. For an integer \<open>t\<close> these are \<open>t\<close> times 1000000.
\<close>

theorem NewsCache_get_after_set:
  "(NewsCache_set timedelta self k v t now = Inr self' \<longrightarrow>
      (\<exists>us. timedelta t = Inr us
         \<and> (elapsed < us \<longrightarrow> NewsCache_get self' k (now + elapsed) = v)
         \<and> (us \<le> elapsed \<longrightarrow> NewsCache_get self' k (now + elapsed) = None)))
   \<and> (NewsCache_set timedelta_seconds self k v n now = Inr self'' \<longrightarrow>
         (elapsed < n * 1000000 \<longrightarrow> NewsCache_get self'' k (now + elapsed) = v)
         \<and> (n * 1000000 \<le> elapsed \<longrightarrow> NewsCache_get self'' k (now + elapsed) = None))"
proof -
  have g: "\<exists>us. td x = Inr us
      \<and> (elapsed < us \<longrightarrow> NewsCache_get s' k (now + elapsed) = v)
      \<and> (us \<le> elapsed \<longrightarrow> NewsCache_get s' k (now + elapsed) = None)"
    if "NewsCache_set td self k v x now = Inr s'" for td :: "'x \<Rightarrow> exn + int" and x s'
    using that
    by (auto simp: NewsCache_set_def datetime_add_def NewsCache_get_def split: sum.splits if_splits)
  have i: "(elapsed < n * 1000000 \<longrightarrow> NewsCache_get self'' k (now + elapsed) = v)
      \<and> (n * 1000000 \<le> elapsed \<longrightarrow> NewsCache_get self'' k (now + elapsed) = None)"
    if s: "NewsCache_set timedelta_seconds self k v n now = Inr self''"
  proof -
    from g [OF s] obtain us where u: "timedelta_seconds n = Inr us"
      and a: "elapsed < us \<longrightarrow> NewsCache_get self'' k (now + elapsed) = v"
      and b: "us \<le> elapsed \<longrightarrow> NewsCache_get self'' k (now + elapsed) = None"
      by blast
    from timedelta_seconds_microseconds [OF u] a b show ?thesis by simp
  qed
  from g [of timedelta t self'] i show ?thesis by blast
qed

theorem NewsCache_get_after_set_witness:
  "NewsCache_set timedelta_seconds NewsCache_init (ustr ''k'') (Some item_a) 300 clock_0
     = Inr (NewsCache_init(ustr ''k'' \<mapsto> \<lparr>data = Some item_a, expiry = clock_0 + 300000000\<rparr>))
   \<and> timedelta_seconds 300 = Inr 300000000
   \<and> (299999999 :: int) < 300 * 1000000
   \<and> NewsCache_get (NewsCache_init(ustr ''k'' \<mapsto> \<lparr>data = Some item_a, expiry = clock_0 + 300000000\<rparr>))
        (ustr ''k'') (clock_0 + 299999999) = Some item_a
   \<and> (300 :: int) * 1000000 \<le> 300000000
   \<and> NewsCache_get (NewsCache_init(ustr ''k'' \<mapsto> \<lparr>data = Some item_a, expiry = clock_0 + 300000000\<rparr>))
        (ustr ''k'') (clock_0 + 300000000) = None"
proof -
  have s: "NewsCache_set timedelta_seconds NewsCache_init (ustr ''k'') (Some item_a) 300 clock_0
     = Inr (NewsCache_init(ustr ''k'' \<mapsto> \<lparr>data = Some item_a, expiry = clock_0 + 300000000\<rparr>))"
    by (rule NewsCache_set_300 [OF clock_0_in_range(1,2)])
  have t: "timedelta_seconds 300 = Inr 300000000" by (rule timedelta_seconds_300)
  have l: "(299999999 :: int) < 300 * 1000000" and m: "(300 :: int) * 1000000 \<le> 300000000"
    by simp_all
  from NewsCache_get_after_set [THEN conjunct2, THEN mp, OF s, of 299999999, THEN conjunct1,
      THEN mp, OF l]
  have a: "NewsCache_get (NewsCache_init(ustr ''k'' \<mapsto> \<lparr>data = Some item_a, expiry = clock_0 + 300000000\<rparr>))
        (ustr ''k'') (clock_0 + 299999999) = Some item_a" .
  from NewsCache_get_after_set [THEN conjunct2, THEN mp, OF s, of 300000000, THEN conjunct2,
      THEN mp, OF m]
  have b: "NewsCache_get (NewsCache_init(ustr ''k'' \<mapsto> \<lparr>data = Some item_a, expiry = clock_0 + 300000000\<rparr>))
        (ustr ''k'') (clock_0 + 300000000) = None" .
  show ?thesis
    by (intro conjI) (rule s t l m a b)+
qed

section \<open>Asking for more items than there are\<close>





section \<open>fetch_news raises nothing\<close>

text \<open>
  C7. Whatever the network call and the parsers do, \<^verbatim>\<open>fetch_news\<close> returns a list and
  raises nothing. When anything in its \<^verbatim>\<open>try\<close> block raises, it logs the error and returns
  the empty list, which is also what its caller gets from a feed with no item.
\<close>

theorem fetch_news_never_raises:
  "(\<exists>news_items lg'. fetch_news lib lg = Inr (news_items, lg'))
   \<and> (\<forall>e. fetch_news_try lib = Inl e \<longrightarrow>
         fetch_news lib lg = Inr ([], lg @ [Error_fetching_news e]))
   \<and> (\<forall>e lib' lg'. fetch_news_try lib = Inl e \<longrightarrow> fetch_news_try lib' = Inr [] \<longrightarrow>
         returned (fetch_news lib lg) = returned (fetch_news lib' lg'))"
  by (auto simp: fetch_news_def returned_def split: sum.splits)

theorem fetch_news_never_raises_witness:
  "fetch_news_try lib_down = Inl (RequestException (ustr ''connection refused''))
   \<and> fetch_news_try lib_empty = Inr []
   \<and> fetch_news lib_down []
       = Inr ([], [Error_fetching_news (RequestException (ustr ''connection refused''))])
   \<and> returned (fetch_news lib_down []) = returned (fetch_news lib_empty [])"
proof -
  have d: "fetch_news_try lib_down = Inl (RequestException (ustr ''connection refused''))"
    by (simp add: fetch_news_try_def lib_down_def)
  have e: "fetch_news_try lib_empty = Inr []"
    by (simp add: fetch_news_try_def lib_empty_def raise_for_status_def)
  show ?thesis
    using d e fetch_news_never_raises [of lib_down "[]"] by simp
qed

section \<open>The count of a response\<close>

text \<open>
  C10. In the response of \<^verbatim>\<open>get_news\<close>, and in the response of \<^verbatim>\<open>get_latest_news\<close> for
  every \<open>count\<close> that the route can pass (the converter gives no negative number), the
  field \<^verbatim>\<open>count\<close> is the length of the list \<^verbatim>\<open>news\<close> of the same response.
\<close>

theorem count_is_length_of_news:
  "json_count (get_news strftime c) = int (length (json_news (get_news strftime c)))
   \<and> json_count (get_latest_news strftime c (int n))
       = int (length (json_news (get_latest_news strftime c (int n))))"
  by (simp add: get_news_def get_latest_news_def py_slice_to_def min_def)

section \<open>The fields of a record\<close>

text \<open>
  C3. The claim is that no field of a record is ever \<^verbatim>\<open>None\<close>. The code breaks it for
  \<^verbatim>\<open>link\<close>: when the first anchor of the description has no \<^verbatim>\<open>href\<close> attribute, the
  record is built and its \<^verbatim>\<open>link\<close> is \<^verbatim>\<open>None\<close>.
\<close>

theorem link_is_None_for_anchor_without_href:
  assumes "find_a lib (case description_text item of Some t \<Rightarrow> t | None \<Rightarrow> []) = Inr (Some attrs)"
    and "map_of attrs (ustr ''href'') = None"
  shows "\<exists>n. make_news_item lib item = Inr n \<and> link n = None"
  using assms
  by (simp add: make_news_item_def source_of_returns extract_link_def Let_def)

theorem link_is_None_for_anchor_without_href_witness:
  "find_a lib_anchor_no_href
      (case description_text item_anchor_no_href of Some t \<Rightarrow> t | None \<Rightarrow> []) = Inr (Some [])
   \<and> map_of ([] :: (pystr \<times> pystr) list) (ustr ''href'') = None
   \<and> (\<exists>n. make_news_item lib_anchor_no_href item_anchor_no_href = Inr n \<and> link n = None)"
proof -
  have f: "find_a lib_anchor_no_href
      (case description_text item_anchor_no_href of Some t \<Rightarrow> t | None \<Rightarrow> []) = Inr (Some [])"
    by (simp add: lib_anchor_no_href_def item_anchor_no_href_def)
  have m: "map_of ([] :: (pystr \<times> pystr) list) (ustr ''href'') = None"
    by simp
  show ?thesis
    using f m link_is_None_for_anchor_without_href [OF f m] by simp
qed

section \<open>The source of a record\<close>

text \<open>
  C4. The claim is that \<^verbatim>\<open>source\<close> is the empty string when the description has no
  anchor. The code breaks it: for the description \<^verbatim>\<open>Plain text\<close> the split on \<^verbatim>\<open></a>\<close>
  has one piece, the whole description, and \<^verbatim>\<open>source\<close> is \<^verbatim>\<open>Plain text\<close>, the same as
  \<^verbatim>\<open>summary\<close>.
\<close>

theorem source_of_description_without_anchor:
  "make_news_item lib_empty item_plain =
     Inr \<lparr>title = ustr ''T'', link = Some [], published_date = [],
          summary = ustr ''Plain text'', source = ustr ''Plain text''\<rparr>"
  by (simp add: make_news_item_def source_of_def py_split_def py_last_def clean_html_def
      extract_link_def lib_empty_def item_plain_def py_strip_def py_split_ws_def isspace_def
      ustr_def Let_def)

section \<open>The scenario of the normalizer\<close>

text \<open>
  C8. For the description of the scenario, whose first anchor the HTML parser finds with
  the \<^verbatim>\<open>href\<close> \<^verbatim>\<open>http://x\<close>, the record has the summary \<^verbatim>\<open>Some summary link\<close>, dash,
  \<^verbatim>\<open>Outlet Name\<close> (tags removed, single spaces), the link \<^verbatim>\<open>http://x\<close> and the source
  dash, \<^verbatim>\<open>Outlet Name\<close> (what follows the last \<^verbatim>\<open></a>\<close>, trimmed).
\<close>

theorem normalizer_scenario:
  assumes "description_text item = Some scenario_description"
    and "find_a lib scenario_description = Inr (Some [(ustr ''href'', ustr ''http://x'')])"
  shows "\<exists>n. make_news_item lib item = Inr n
    \<and> summary n = ustr ''Some summary link '' @ [8212] @ ustr '' Outlet Name''
    \<and> link n = Some (ustr ''http://x'')
    \<and> source n = [8212] @ ustr '' Outlet Name''"
proof -
  have c: "clean_html scenario_description
      = ustr ''Some summary link '' @ [8212] @ ustr '' Outlet Name''"
    by (simp add: scenario_description_def clean_html_def ustr_def py_split_ws_def isspace_def)
  have s: "source_of scenario_description = Inr ([8212] @ ustr '' Outlet Name'')"
    by (simp add: scenario_description_def source_of_def py_split_def py_last_def
        clean_html_def ustr_def py_split_ws_def isspace_def)
  have t: "py_strip ([8212] @ ustr '' Outlet Name'') = [8212] @ ustr '' Outlet Name''"
    by (simp add: py_strip_def ustr_def isspace_def)
  have l: "extract_link lib scenario_description = Inr (Some (ustr ''http://x''))"
    using assms(2) by (simp add: extract_link_def)
  show ?thesis
    using assms(1) c s t l by (simp add: make_news_item_def)
qed

theorem normalizer_scenario_witness:
  "description_text \<lparr>title_text = None, description_text = Some scenario_description,
      pubDate_text = None\<rparr> = Some scenario_description
   \<and> find_a lib_scenario scenario_description = Inr (Some [(ustr ''href'', ustr ''http://x'')])
   \<and> (\<exists>n. make_news_item lib_scenario
          \<lparr>title_text = None, description_text = Some scenario_description, pubDate_text = None\<rparr>
          = Inr n
        \<and> summary n = ustr ''Some summary link '' @ [8212] @ ustr '' Outlet Name''
        \<and> link n = Some (ustr ''http://x'')
        \<and> source n = [8212] @ ustr '' Outlet Name'')"
proof -
  have d: "description_text \<lparr>title_text = None, description_text = Some scenario_description,
      pubDate_text = None\<rparr> = Some scenario_description"
    by simp
  have f: "find_a lib_scenario scenario_description
      = Inr (Some [(ustr ''href'', ustr ''http://x'')])"
    by (simp add: lib_scenario_def)
  show ?thesis
    using d f normalizer_scenario [OF d f] by blast
qed

section \<open>The key of a memoized call\<close>

text \<open>
  C6. The claim is that two calls of wrapped functions that differ in the function or in
  the arguments never have the same key. It fails for two functions that share a
  \<^verbatim>\<open>__name__\<close>: the view \<^verbatim>\<open>get_news\<close> and another function of that name, both called
  with no argument, have the same key.
\<close>

theorem cache_key_same_name_collides:
  "get_news_view strftime_stub cache_ab \<noteq> another_get_news
   \<and> fn_id (get_news_view strftime_stub cache_ab) \<noteq> fn_id another_get_news
   \<and> cache_key (get_news_view strftime_stub cache_ab) [] [] = cache_key another_get_news [] []"
proof -
  have "fn_id (get_news_view strftime_stub cache_ab) \<noteq> fn_id another_get_news"
    by (simp add: get_news_view_def another_get_news_def)
  moreover from this have "get_news_view strftime_stub cache_ab \<noteq> another_get_news"
    by auto
  moreover have "cache_key (get_news_view strftime_stub cache_ab) [] []
      = cache_key another_get_news [] []"
    by (simp add: cache_key_def get_news_view_def another_get_news_def)
  ultimately show ?thesis by simp
qed

text \<open>
  C6, amended. The key depends on the function through its \<^verbatim>\<open>__name__\<close> only. For
  functions and keyword arguments named by identifiers and integer argument values, two
  calls that differ in the \<^verbatim>\<open>__name__\<close>, in the positional arguments or in the keyword
  arguments have different keys.
\<close>

theorem cache_key_distinct:
  assumes "isidentifier (fn_name f)" and "isidentifier (fn_name g)"
    and "list_all isidentifier (map fst kwargs1)" and "list_all isidentifier (map fst kwargs2)"
    and "(fn_name f, args1, kwargs1) \<noteq> (fn_name g, args2, kwargs2)"
  shows "cache_key f args1 kwargs1 \<noteq> cache_key g args2 kwargs2"
proof
  assume e: "cache_key f args1 kwargs1 = cache_key g args2 kwargs2"
  have k1: "list_all (\<lambda>p. isidentifier (fst p)) kwargs1"
    using assms(3) by (simp add: list_all_iff)
  have k2: "list_all (\<lambda>p. isidentifier (fst p)) kwargs2"
    using assms(4) by (simp add: list_all_iff)
  from cache_key_inj [OF assms(1,2) k1 k2 e] assms(5) show False by simp
qed

theorem cache_key_distinct_witness:
  "isidentifier (fn_name (get_latest_news_view strftime_stub cache_ab))
   \<and> list_all isidentifier (map fst [(ustr ''count'', 5 :: int)])
   \<and> list_all isidentifier (map fst [(ustr ''count'', 15 :: int)])
   \<and> (fn_name (get_latest_news_view strftime_stub cache_ab), [] :: int list, [(ustr ''count'', 5 :: int)])
       \<noteq> (fn_name (get_latest_news_view strftime_stub cache_ab), [], [(ustr ''count'', 15)])
   \<and> cache_key (get_latest_news_view strftime_stub cache_ab) [] [(ustr ''count'', 5)]
       \<noteq> cache_key (get_latest_news_view strftime_stub cache_ab) [] [(ustr ''count'', 15)]"
proof -
  have n: "isidentifier (fn_name (get_latest_news_view strftime_stub cache_ab))"
    by (simp add: get_latest_news_view_def isidentifier_def ident_char_def ustr_def)
  have a: "list_all isidentifier (map fst [(ustr ''count'', 5 :: int)])"
    by (simp add: isidentifier_def ident_char_def ustr_def)
  have b: "list_all isidentifier (map fst [(ustr ''count'', 15 :: int)])"
    by (simp add: isidentifier_def ident_char_def ustr_def)
  have d: "(fn_name (get_latest_news_view strftime_stub cache_ab), [] :: int list,
        [(ustr ''count'', 5 :: int)])
      \<noteq> (fn_name (get_latest_news_view strftime_stub cache_ab), [], [(ustr ''count'', 15)])"
    by simp
  show ?thesis
    using n a b d cache_key_distinct [OF n n a b d] by simp
qed

section \<open>The two assignments of a refresh\<close>

text \<open>
  C9. The claim is that a refresh replaces the snapshot by one assignment, so that no
  reader sees the new items with the old timestamp, or the old items with the new one.
  It fails both ways. After the statement \<^verbatim>\<open>cache['news'] = news_items\<close> and before
  \<^verbatim>\<open>cache['last_update'] = datetime.now()\<close>, the dictionary that the handlers read holds
  the new items and the old timestamp. And a \<^verbatim>\<open>get_news\<close> that reads \<^verbatim>\<open>cache['news']\<close>
  before the two assignments and \<^verbatim>\<open>cache['last_update']\<close>, for \<^verbatim>\<open>Last-Modified\<close>, after
  them answers with the old items and the new timestamp.
\<close>

theorem update_cache_new_items_with_old_timestamp:
  "news (cache (shared (update_cache_steps lib_one 2000000 3 \<lparr>cache = cache_ab, logger = []\<rparr>)))
     = [item_plain_news]
   \<and> last_update
        (cache (shared (update_cache_steps lib_one 2000000 3 \<lparr>cache = cache_ab, logger = []\<rparr>)))
     = Some 1000000
   \<and> news cache_ab = [item_a, item_b]
   \<and> last_update cache_ab = Some 1000000
   \<and> [item_plain_news] \<noteq> [item_a, item_b]
   \<and> last_update
        (cache (shared (update_cache_steps lib_one 2000000 5 \<lparr>cache = cache_ab, logger = []\<rparr>)))
     = Some 2000000
   \<and> get_news_during_refresh lib_one 2000000 \<lparr>cache = cache_ab, logger = []\<rparr>
        reads_around_refresh strftime_micro
     = Inr \<lparr>json_status = ustr ''success'',
            json_last_update = Some (strftime_micro 1000000 (ustr ''%Y-%m-%d %H:%M:%S'')),
            json_count = 2,
            json_news = [item_a, item_b],
            http_status = 200,
            headers =
              [(ustr ''Cache-Control'', ustr ''public, max-age=300''),
               (ustr ''X-Cache-Hit'', ustr ''true''),
               (ustr ''Last-Modified'',
                strftime_micro 2000000 (ustr ''%a, %d %b %Y %H:%M:%S GMT''))]\<rparr>
   \<and> strftime_micro 2000000 (ustr ''%a, %d %b %Y %H:%M:%S GMT'')
       \<noteq> strftime_micro 1000000 (ustr ''%a, %d %b %Y %H:%M:%S GMT'')"
proof -
  have f: "fetch_news lib_one (logger \<lparr>cache = cache_ab, logger = []\<rparr>)
      = Inr ([item_plain_news], [])"
    by (simp add: fetch_news_lib_one)
  have ne: "[item_plain_news] \<noteq> []" by simp
  note s = steps_of_successful_fetch [OF f ne, of 2000000]
  have d: "news (cache (shared (update_cache_steps lib_one 2000000 3 \<lparr>cache = cache_ab, logger = []\<rparr>)))
     = [item_plain_news]
   \<and> last_update
        (cache (shared (update_cache_steps lib_one 2000000 3 \<lparr>cache = cache_ab, logger = []\<rparr>)))
     = Some 1000000
   \<and> news cache_ab = [item_a, item_b]
   \<and> last_update cache_ab = Some 1000000
   \<and> [item_plain_news] \<noteq> [item_a, item_b]
   \<and> last_update
        (cache (shared (update_cache_steps lib_one 2000000 5 \<lparr>cache = cache_ab, logger = []\<rparr>)))
     = Some 2000000"
    by (simp only: s) (simp add: cache_ab_def item_plain_news_def item_a_def ustr_def)
  have r2: "cache (shared (update_cache_steps lib_one 2000000 2 \<lparr>cache = cache_ab, logger = []\<rparr>))
      = cache_ab"
    by (simp only: s) simp
  have r4: "cache (shared (update_cache_steps lib_one 2000000 4 \<lparr>cache = cache_ab, logger = []\<rparr>))
      = cache_ab\<lparr>news := [item_plain_news], last_update := Some 2000000\<rparr>"
    by (simp only: s) simp
  have g: "get_news_during_refresh lib_one 2000000 \<lparr>cache = cache_ab, logger = []\<rparr>
        reads_around_refresh strftime_micro
     = Inr \<lparr>json_status = ustr ''success'',
            json_last_update = Some (strftime_micro 1000000 (ustr ''%Y-%m-%d %H:%M:%S'')),
            json_count = 2,
            json_news = [item_a, item_b],
            http_status = 200,
            headers =
              [(ustr ''Cache-Control'', ustr ''public, max-age=300''),
               (ustr ''X-Cache-Hit'', ustr ''true''),
               (ustr ''Last-Modified'',
                strftime_micro 2000000 (ustr ''%a, %d %b %Y %H:%M:%S GMT''))]\<rparr>"
  proof -
    have rd: "cache (shared (update_cache_steps lib_one 2000000 (reads_around_refresh i)
          \<lparr>cache = cache_ab, logger = []\<rparr>))
        = (if i < 5 then cache_ab
           else cache_ab\<lparr>news := [item_plain_news], last_update := Some 2000000\<rparr>)" for i
      using r2 r4 by (simp del: update_cache_steps.simps)
    have la: "last_update cache_ab = Some 1000000" and na: "news cache_ab = [item_a, item_b]"
      by (simp_all add: cache_ab_def)
    show ?thesis
      unfolding get_news_during_refresh_def get_news_reading_def strftime_if_set_def
      by (simp add: rd la na del: update_cache_steps.simps reads_around_refresh.simps)
  qed
  show ?thesis
    by (intro conjI) (use d g strftime_micro_distinct in blast)+
qed

text \<open>
  C9, amended. A refresh whose fetch gave items writes \<^verbatim>\<open>cache\<close> by two assignments, the
  items first and the timestamp second. After \<open>k\<close> statements of the iteration the
  dictionary is the old one (\<open>k < 3\<close>), the old one with the new items (\<open>k = 3\<close>), or the
  one with the new items and the new timestamp (\<open>k > 3\<close>), and when the iteration reaches
  its sleep the state is the one that the whole iteration computes. This is about what
  the dictionary holds at each point, not about what a handler that reads it several
  times puts together.
\<close>

theorem update_cache_two_assignments:
  assumes f: "fetch_news lib (logger st) = Inr (items, lg)" and ne: "items \<noteq> []"
  shows "cache (shared (update_cache_steps lib now k st))
      = (if k < 3 then cache st
         else if k = 3 then (cache st)\<lparr>news := items\<rparr>
         else (cache st)\<lparr>news := items, last_update := Some now\<rparr>)
    \<and> (5 \<le> k \<longrightarrow> shared (update_cache_steps lib now k st) = update_cache_iteration lib now st)"
proof -
  note s = steps_of_successful_fetch [OF f ne, of now]
  have it: "update_cache_iteration lib now st
      = \<lparr>cache = (cache st)\<lparr>news := items, last_update := Some now\<rparr>,
         logger = lg @ [Cache_updated_at now]\<rparr>"
    using f ne by (simp add: update_cache_iteration_def)
  consider "k = 0" | "k = 1" | "k = 2" | "k = 3" | "k = 4" | "5 \<le> k" by linarith
  then show ?thesis
  proof cases
    case 6
    then obtain j where k: "k = 5 + j" using le_Suc_ex by blast
    have "at (update_cache_steps lib now 5 st) = At_sleep" by (simp add: s(5))
    from steps_after_sleep [OF this, of j] k
    have "update_cache_steps lib now k st = update_cache_steps lib now 5 st" by simp
    with 6 show ?thesis by (simp add: s(5) it)
  qed (simp_all add: s del: update_cache_steps.simps(2))
qed

theorem update_cache_two_assignments_witness:
  "fetch_news lib_one (logger \<lparr>cache = cache_ab, logger = []\<rparr>) = Inr ([item_plain_news], [])
   \<and> [item_plain_news] \<noteq> []
   \<and> cache (shared (update_cache_steps lib_one 2000000 3 \<lparr>cache = cache_ab, logger = []\<rparr>))
       = cache_ab\<lparr>news := [item_plain_news]\<rparr>
   \<and> cache (shared (update_cache_steps lib_one 2000000 5 \<lparr>cache = cache_ab, logger = []\<rparr>))
       = cache_ab\<lparr>news := [item_plain_news], last_update := Some 2000000\<rparr>
   \<and> (5 :: nat) \<le> 5
   \<and> shared (update_cache_steps lib_one 2000000 5 \<lparr>cache = cache_ab, logger = []\<rparr>)
       = update_cache_iteration lib_one 2000000 \<lparr>cache = cache_ab, logger = []\<rparr>"
proof -
  have f: "fetch_news lib_one (logger \<lparr>cache = cache_ab, logger = []\<rparr>)
      = Inr ([item_plain_news], [])"
    by (simp add: fetch_news_lib_one)
  have ne: "[item_plain_news] \<noteq> []" by simp
  have t3: "cache (shared (update_cache_steps lib_one 2000000 3 \<lparr>cache = cache_ab, logger = []\<rparr>))
      = cache_ab\<lparr>news := [item_plain_news]\<rparr>"
    using update_cache_two_assignments [OF f ne, of 2000000 3] by simp
  have t5: "cache (shared (update_cache_steps lib_one 2000000 5 \<lparr>cache = cache_ab, logger = []\<rparr>))
      = cache_ab\<lparr>news := [item_plain_news], last_update := Some 2000000\<rparr>"
    and t6: "shared (update_cache_steps lib_one 2000000 5 \<lparr>cache = cache_ab, logger = []\<rparr>)
      = update_cache_iteration lib_one 2000000 \<lparr>cache = cache_ab, logger = []\<rparr>"
    using update_cache_two_assignments [OF f ne, of 2000000 5, simplified] by blast+
  show ?thesis
    by (intro conjI) (rule f ne t3 t5 t6 order_refl)+
qed

end
